theory Spec2Isabelle
  imports Complex_Main "HOL-Library.Multiset"
begin

section \<open>Data model\<close>

text \<open>
  The media records of \<^verbatim>\<open>utils/indexedDb.ts\<close> and \<^verbatim>\<open>hooks/useMediaCapture.ts\<close>.
  \<^verbatim>\<open>StoredMediaData\<close> is what the object store holds; \<^verbatim>\<open>CapturedMedia\<close> is the
  same record plus the object URL and the optional \<^verbatim>\<open>indexedDbId\<close>, so it is a
  record extension; its fields are those the hook reads and writes (the declaration in
  \<^verbatim>\<open>types/media\<close> is only imported by the hook). The fields \<^verbatim>\<open>id\<close> and
  \<^verbatim>\<open>type\<close> carry a prime because \<open>id\<close> is a constant of HOL. A blob is its byte content; a timestamp is the integer
  number of milliseconds that \<^verbatim>\<open>Date.now()\<close> returns.
\<close>

datatype CameraMode = photo | video

type_synonym Blob = "nat list"

record StoredMediaData =
  id' :: string
  type' :: CameraMode
  blob :: Blob
  timestamp :: int
  filename :: string

record CapturedMedia = StoredMediaData +
  url :: string
  indexedDbId :: "string option"

datatype js_error =
    DOMException string
  | Error string
  | TypeError string
  | SyntaxError string
  | RangeError string
  | NonError string

section \<open>The world the hook runs in\<close>

text \<open>
  The browser is outside the repository. Its parts that the code talks to are state of
  the model: the object store \<^verbatim>\<open>media\<close> of the IndexedDB database (entries keyed by
  \<^verbatim>\<open>id\<close>, the key path), the registry of live object URLs, and a list of the engine
  requests that are made to fail. The React state of the hook
  (\<^verbatim>\<open>capturedMedia\<close>, \<^verbatim>\<open>isLoading\<close>) and the connection field \<^verbatim>\<open>this.db\<close> of
  \<^verbatim>\<open>MediaDatabase\<close> are state as well. Every engine request and every URL call is
  written to \<open>trace\<close> when it settles, together with the collection that is visible at
  that moment. Console output is not modelled.

  The entry point renders the application inside \<^verbatim>\<open><StrictMode>\<close>. In a development
  build React then calls every state updater function twice with the same previous state
  and keeps one result; in a production build it calls the updater once. \<open>strictMode\<close>
  says that the page is such a development build. (That build also runs the mount effect
  twice; each run is one call of \<^verbatim>\<open>loadPersistedMedia\<close>.)
\<close>

datatype fault = FailOpen | FailPut | FailGetAll | FailDelete | FailClear | FailCreateURL

datatype event =
    EvOpen bool
  | EvPut string bool
  | EvGetAll bool
  | EvDelete string bool
  | EvClear bool
  | EvCreateURL bool
  | EvRevoke string

record world =
  capturedMedia :: "CapturedMedia list"
  isLoading :: bool
  db :: bool
  media_store :: "StoredMediaData list"
  object_urls :: "string list"
  url_seq :: nat
  faults :: "fault list"
  strictMode :: bool
  trace :: "(event \<times> CapturedMedia list) list"

type_synonym 'a async = "world \<Rightarrow> (js_error + 'a) \<times> world"

definition resolve :: "'a \<Rightarrow> 'a async" where
  "resolve x = (\<lambda>w. (Inr x, w))"

definition await :: "'a async \<Rightarrow> ('a \<Rightarrow> 'b async) \<Rightarrow> 'b async" where
  "await m f = (\<lambda>w. case m w of (Inl e, w') \<Rightarrow> (Inl e, w') | (Inr x, w') \<Rightarrow> f x w')"

definition try_catch :: "'a async \<Rightarrow> (js_error \<Rightarrow> 'a async) \<Rightarrow> 'a async" where
  "try_catch m h = (\<lambda>w. case m w of (Inl e, w') \<Rightarrow> h e w' | (Inr x, w') \<Rightarrow> (Inr x, w'))"

definition try_finally :: "'a async \<Rightarrow> (world \<Rightarrow> world) \<Rightarrow> 'a async" where
  "try_finally m f = (\<lambda>w. case m w of (r, w') \<Rightarrow> (r, f w'))"

definition emit :: "event \<Rightarrow> world \<Rightarrow> world" where
  "emit e w = w\<lparr>trace := trace w @ [(e, capturedMedia w)]\<rparr>"

definition failing :: "fault \<Rightarrow> world \<Rightarrow> bool" where
  "failing f w = (f \<in> set (faults w))"

text \<open>
  The side effects that a state updater function makes happen once for every call of the
  updater: twice under \<open>strictMode\<close>, once otherwise.
\<close>

definition per_updater_call :: "world \<Rightarrow> (world \<Rightarrow> world) \<Rightarrow> world \<Rightarrow> world" where
  "per_updater_call w0 f = (if strictMode w0 then (\<lambda>s. f (f s)) else f)"

subsection \<open>Strings\<close>

definition startsWith :: "string \<Rightarrow> string \<Rightarrow> bool" where
  "startsWith s p = (take (length p) s = p)"

definition digit :: "nat \<Rightarrow> char" where
  "digit n = char_of (48 + n mod 10)"

fun dec :: "nat \<Rightarrow> string" where
  "dec n = (if n < 10 then [digit n] else dec (n div 10) @ [digit n])"

declare dec.simps [simp del]

definition number_toString :: "int \<Rightarrow> string" where
  "number_toString i = (if i < 0 then CHR ''-'' # dec (nat (- i)) else dec (nat i))"

subsection \<open>Object URLs\<close>

text \<open>
  \<^verbatim>\<open>URL.createObjectURL\<close> registers a fresh \<^verbatim>\<open>blob:\<close> URL or throws;
  \<^verbatim>\<open>URL.revokeObjectURL\<close> drops the URL from the registry and does nothing for a
  URL that is not registered.
\<close>

definition createObjectURL :: "Blob \<Rightarrow> string async" where
  "createObjectURL b = (\<lambda>w.
     if failing FailCreateURL w
     then (Inl (TypeError ''createObjectURL''), emit (EvCreateURL False) w)
     else let u = ''blob:'' @ dec (url_seq w)
          in (Inr u, emit (EvCreateURL True)
                (w\<lparr>object_urls := u # object_urls w, url_seq := Suc (url_seq w)\<rparr>)))"

definition revokeObjectURL :: "string \<Rightarrow> world \<Rightarrow> world" where
  "revokeObjectURL u w = emit (EvRevoke u) (w\<lparr>object_urls := removeAll u (object_urls w)\<rparr>)"

section \<open>MediaDatabase\<close>

text \<open>
  The object store is created with key path \<^verbatim>\<open>id\<close> and no key generator: the
  key of an entry is the \<^verbatim>\<open>id\<close> field of the stored value. So \<^verbatim>\<open>store.put\<close>
  replaces the entry with the same \<^verbatim>\<open>id\<close> or adds one, \<^verbatim>\<open>store.delete\<close> of an
  absent key succeeds, and \<^verbatim>\<open>store.getAll\<close> returns every entry. The list
  \<open>media_store\<close> is read in its own order, which stands for any order the engine may
  yield.
\<close>

fun objectStore_put :: "StoredMediaData \<Rightarrow> StoredMediaData list \<Rightarrow> StoredMediaData list" where
  "objectStore_put v [] = [v]"
| "objectStore_put v (x # xs) = (if id' x = id' v then v # xs else x # objectStore_put v xs)"

definition objectStore_delete :: "string \<Rightarrow> StoredMediaData list \<Rightarrow> StoredMediaData list" where
  "objectStore_delete k xs = filter (\<lambda>x. id' x \<noteq> k) xs"

text \<open>
  \<^verbatim>\<open>init\<close> opens the database: on success \<^verbatim>\<open>this.db\<close> is set, on error the
  promise rejects.
\<close>

definition init :: "unit async" where
  "init = (\<lambda>w.
     if failing FailOpen w then (Inl (DOMException ''open''), emit (EvOpen False) w)
     else (Inr (), emit (EvOpen True) (w\<lparr>db := True\<rparr>)))"

definition ensureDB :: "unit async" where
  "ensureDB =
     await (\<lambda>w. if \<not> db w then init w else (Inr (), w))
       (\<lambda>_ w. if \<not> db w then (Inl (Error ''Failed to initialize IndexedDB''), w)
               else (Inr (), w))"

definition storeMedia :: "StoredMediaData \<Rightarrow> string async" where
  "storeMedia mediaData =
     await ensureDB (\<lambda>_ w.
       if failing FailPut w
       then (Inl (DOMException ''put''), emit (EvPut (id' mediaData) False) w)
       else (Inr (id' mediaData),
             emit (EvPut (id' mediaData) True)
               (w\<lparr>media_store := objectStore_put mediaData (media_store w)\<rparr>)))"

definition getAllMedia :: "StoredMediaData list async" where
  "getAllMedia =
     await ensureDB (\<lambda>_ w.
       if failing FailGetAll w then (Inl (DOMException ''getAll''), emit (EvGetAll False) w)
       else (Inr (media_store w), emit (EvGetAll True) w))"

definition deleteMedia :: "string \<Rightarrow> unit async" where
  "deleteMedia i =
     await ensureDB (\<lambda>_ w.
       if failing FailDelete w then (Inl (DOMException ''delete''), emit (EvDelete i False) w)
       else (Inr (), emit (EvDelete i True)
               (w\<lparr>media_store := objectStore_delete i (media_store w)\<rparr>)))"

definition MediaDatabase_clearAllMedia :: "unit async" where
  "MediaDatabase_clearAllMedia =
     await ensureDB (\<lambda>_ w.
       if failing FailClear w then (Inl (DOMException ''clear''), emit (EvClear False) w)
       else (Inr (), emit (EvClear True) (w\<lparr>media_store := []\<rparr>)))"

section \<open>useMediaCapture\<close>

definition setCapturedMedia :: "(CapturedMedia list \<Rightarrow> CapturedMedia list) \<Rightarrow> world \<Rightarrow> world" where
  "setCapturedMedia f w = w\<lparr>capturedMedia := f (capturedMedia w)\<rparr>"

definition setIsLoading :: "bool \<Rightarrow> world \<Rightarrow> world" where
  "setIsLoading b w = w\<lparr>isLoading := b\<rparr>"

text \<open>
  A page load starts the hook with its initial state (\<^verbatim>\<open>useState([])\<close>,
  \<^verbatim>\<open>useState(true)\<close>) and a \<^verbatim>\<open>MediaDatabase\<close> whose \<^verbatim>\<open>db\<close> is null; the
  object URLs of the previous page are gone, the object store is kept.
\<close>

definition reload :: "world \<Rightarrow> world" where
  "reload w = w\<lparr>capturedMedia := [], isLoading := True, db := False, object_urls := []\<rparr>"

subsection \<open>The sort of \<^verbatim>\<open>restoredMedia.sort((a, b) => b.timestamp - a.timestamp)\<close>\<close>

text \<open>
  \<^verbatim>\<open>Array.prototype.sort\<close> is stable and orders by the sign of the comparator. It is
  modelled as a stable insertion sort over the comparator of the source.
\<close>

definition newest_first :: "CapturedMedia \<Rightarrow> CapturedMedia \<Rightarrow> int" where
  "newest_first a b = timestamp b - timestamp a"

fun insert_by :: "('a \<Rightarrow> 'a \<Rightarrow> int) \<Rightarrow> 'a \<Rightarrow> 'a list \<Rightarrow> 'a list" where
  "insert_by cmp x [] = [x]"
| "insert_by cmp x (y # ys) = (if cmp x y \<le> 0 then x # y # ys else y # insert_by cmp x ys)"

definition array_sort :: "('a \<Rightarrow> 'a \<Rightarrow> int) \<Rightarrow> 'a list \<Rightarrow> 'a list" where
  "array_sort cmp xs = foldr (insert_by cmp) xs []"

subsection \<open>loadPersistedMedia\<close>

fun restore_each :: "StoredMediaData list \<Rightarrow> CapturedMedia list async" where
  "restore_each [] w = (Inr [], w)"
| "restore_each (stored # rest) w =
     (case createObjectURL (blob stored) w of
        (Inl e, w1) \<Rightarrow> (Inl e, w1)
      | (Inr u, w1) \<Rightarrow>
          (case restore_each rest w1 of
             (Inl e, w2) \<Rightarrow> (Inl e, w2)
           | (Inr ms, w2) \<Rightarrow>
               (Inr (\<lparr>id' = id' stored, type' = type' stored, blob = blob stored,
                      timestamp = timestamp stored, filename = filename stored,
                      url = u, indexedDbId = Some (id' stored)\<rparr> # ms), w2)))"

definition loadPersistedMedia :: "unit async" where
  "loadPersistedMedia =
     try_finally
       (try_catch
          (await getAllMedia (\<lambda>storedMedia.
             if length storedMedia > 0
             then await (restore_each storedMedia) (\<lambda>restoredMedia w.
                    (Inr (), setCapturedMedia (\<lambda>_. array_sort newest_first restoredMedia) w))
             else resolve ()))
          (\<lambda>error. resolve ()))
       (setIsLoading False)"

subsection \<open>addMedia, removeMedia, clearAllMedia\<close>

text \<open>The \<^verbatim>\<open>storedData\<close> object that \<^verbatim>\<open>addMedia\<close> builds from its argument.\<close>

definition storedData :: "CapturedMedia \<Rightarrow> StoredMediaData" where
  "storedData media = \<lparr>id' = id' media, type' = type' media, blob = blob media,
                          timestamp = timestamp media, filename = filename media\<rparr>"

definition addMedia :: "CapturedMedia \<Rightarrow> unit async" where
  "addMedia media =
     try_catch
       (await (storeMedia (storedData media))
          (\<lambda>indexedDbId w.
             (Inr (), setCapturedMedia (\<lambda>prev. media\<lparr>indexedDbId := Some indexedDbId\<rparr> # prev) w)))
       (\<lambda>error w. (Inr (), setCapturedMedia (\<lambda>prev. media # prev) w))"

text \<open>
  \<^verbatim>\<open>removeMedia\<close> does its work inside the state updater: the revoke and the call
  \<^verbatim>\<open>mediaDatabase.deleteMedia(...)\<close> happen at every call of the updater, so twice
  under \<open>strictMode\<close>. Every call of the updater sees the same \<^verbatim>\<open>prev\<close> and returns
  the same filtered list. \<^verbatim>\<open>deleteMedia\<close> is not awaited and its rejection is caught by
  \<^verbatim>\<open>.catch\<close>; it suspends at its first \<^verbatim>\<open>await\<close>, so its request reaches the
  engine after the updater has returned.
\<close>

definition removeMedia :: "string \<Rightarrow> unit async" where
  "removeMedia i = (\<lambda>w.
     let prev = capturedMedia w;
         mediaToRemove = find (\<lambda>m. id' m = i) prev;
         w1 = (case mediaToRemove of
                 None \<Rightarrow> w
               | Some m \<Rightarrow>
                   if startsWith (url m) ''blob:''
                   then per_updater_call w (revokeObjectURL (url m)) w
                   else w);
         w2 = setCapturedMedia (\<lambda>_. filter (\<lambda>m. id' m \<noteq> i) prev) w1;
         w3 = (case mediaToRemove of
                 None \<Rightarrow> w2
               | Some m \<Rightarrow>
                   (case indexedDbId m of
                      None \<Rightarrow> w2
                    | Some k \<Rightarrow>
                        if k \<noteq> []
                        then per_updater_call w
                               (\<lambda>s. snd (try_catch (deleteMedia k) (\<lambda>error. resolve ()) s)) w2
                        else w2))
     in (Inr (), w3))"

fun revoke_each :: "CapturedMedia list \<Rightarrow> world \<Rightarrow> world" where
  "revoke_each [] w = w"
| "revoke_each (media # rest) w =
     revoke_each rest (if startsWith (url media) ''blob:'' then revokeObjectURL (url media) w else w)"

text \<open>
  \<^verbatim>\<open>clearAllMedia\<close> reads \<^verbatim>\<open>capturedMedia\<close> from its closure: the collection of the
  render in which the callback was made, which is the collection at the call.
\<close>

definition clearAllMedia :: "unit async" where
  "clearAllMedia = (\<lambda>w.
     let captured = capturedMedia w
     in await (try_catch MediaDatabase_clearAllMedia (\<lambda>error. resolve ()))
          (\<lambda>_ w1. (Inr (), setCapturedMedia (\<lambda>_. []) (revoke_each captured w1))) w)"

subsection \<open>createMediaFromBlob\<close>

text \<open>
  \<^verbatim>\<open>Date.prototype.toISOString\<close>, from the language standard: the time value is split
  into days and milliseconds of the day, the day number is turned into a civil date of
  the proleptic Gregorian calendar, and the year is written with four digits, or with a
  sign and six digits outside 0..9999. A time value beyond 8.64e15 milliseconds from the
  epoch is no date: \<^verbatim>\<open>toISOString\<close> throws a \<^verbatim>\<open>RangeError\<close>. The civil date is
  computed in steps, each a function of the values found so far: era and day of the era,
  year of the era, day of the year, month counted from March, then month and day.
\<close>

primrec pad :: "nat \<Rightarrow> nat \<Rightarrow> string" where
  "pad 0 n = []"
| "pad (Suc k) n = pad k (n div 10) @ [digit n]"

definition civil_of_month :: "int \<Rightarrow> int \<Rightarrow> int \<Rightarrow> int \<times> int \<times> int" where
  "civil_of_month y m d = (y + (if m \<le> 2 then 1 else 0), m, d)"

definition civil_of_mp :: "int \<Rightarrow> int \<Rightarrow> int \<Rightarrow> int \<times> int \<times> int" where
  "civil_of_mp y doy mp =
     civil_of_month y (if mp < 10 then mp + 3 else mp - 9) (doy - (153 * mp + 2) div 5 + 1)"

definition civil_of_doy :: "int \<Rightarrow> int \<Rightarrow> int \<times> int \<times> int" where
  "civil_of_doy y doy = civil_of_mp y doy ((5 * doy + 2) div 153)"

definition civil_of_yoe :: "int \<Rightarrow> int \<Rightarrow> int \<Rightarrow> int \<times> int \<times> int" where
  "civil_of_yoe era doe yoe =
     civil_of_doy (yoe + era * 400) (doe - (365 * yoe + yoe div 4 - yoe div 100))"

definition civil_of_doe :: "int \<Rightarrow> int \<Rightarrow> int \<times> int \<times> int" where
  "civil_of_doe era doe =
     civil_of_yoe era doe ((doe - doe div 1460 + doe div 36524 - doe div 146096) div 365)"

definition civil_from_days :: "int \<Rightarrow> int \<times> int \<times> int" where
  "civil_from_days z = civil_of_doe ((z + 719468) div 146097) ((z + 719468) mod 146097)"

definition year_string :: "int \<Rightarrow> string" where
  "year_string y =
     (if 0 \<le> y \<and> y \<le> 9999 then pad 4 (nat y)
      else (if y < 0 then CHR ''-'' else CHR ''+'') # pad 6 (nat \<bar>y\<bar>))"

definition valid_time :: "int \<Rightarrow> bool" where
  "valid_time t = (- 8640000000000000 \<le> t \<and> t \<le> 8640000000000000)"

definition toISOString :: "int \<Rightarrow> js_error + string" where
  "toISOString t =
     (if \<not> valid_time t then Inl (RangeError ''Invalid time value'')
      else let ms = t mod 86400000;
               (y, m, d) = civil_from_days (t div 86400000)
           in Inr (year_string y @ ''-'' @ pad 2 (nat m) @ ''-'' @ pad 2 (nat d) @ ''T''
                   @ pad 2 (nat (ms div 3600000)) @ '':''
                   @ pad 2 (nat (ms div 60000 mod 60)) @ '':''
                   @ pad 2 (nat (ms div 1000 mod 60)) @ ''.''
                   @ pad 3 (nat (ms mod 1000)) @ ''Z''))"

definition slice :: "nat \<Rightarrow> nat \<Rightarrow> string \<Rightarrow> string" where
  "slice a b s = take (b - a) (drop a s)"

definition substr :: "nat \<Rightarrow> nat \<Rightarrow> string \<Rightarrow> string" where
  "substr a n s = take n (drop a s)"

definition replace_colon_dot :: "string \<Rightarrow> string" where
  "replace_colon_dot s = map (\<lambda>c. if c = CHR '':'' \<or> c = CHR ''.'' then CHR ''-'' else c) s"

definition mode_string :: "CameraMode \<Rightarrow> string" where
  "mode_string t = (case t of photo \<Rightarrow> ''photo'' | video \<Rightarrow> ''video'')"

text \<open>
  The clock and the random generator are arguments: \<open>now0\<close> is the value of the first
  \<^verbatim>\<open>Date.now()\<close> (it goes into the id), \<open>rnd\<close> is
  \<^verbatim>\<open>Math.random().toString(36)\<close>, and \<open>now1\<close> is the value of the second
  \<^verbatim>\<open>Date.now()\<close>, the timestamp of the record.
\<close>

definition createMediaFromBlob ::
  "int \<Rightarrow> string \<Rightarrow> int \<Rightarrow> Blob \<Rightarrow> CameraMode \<Rightarrow> CapturedMedia async" where
  "createMediaFromBlob now0 rnd now1 b t =
     (let i = mode_string t @ ''_'' @ number_toString now0 @ ''_'' @ substr 2 9 rnd
      in await (try_catch (createObjectURL b) (\<lambda>error. resolve []))
           (\<lambda>u w.
              let ts = now1;
                  extension = (if t = photo then ''jpg'' else ''webm'')
              in case toISOString ts of
                   Inl e \<Rightarrow> (Inl e, w)
                 | Inr isoString \<Rightarrow>
                     (Inr \<lparr>id' = i, type' = t, blob = b, timestamp = ts,
                           filename = mode_string t @ ''_'' @ replace_colon_dot (slice 0 19 isoString)
                                      @ ''.'' @ extension,
                           url = u, indexedDbId = None\<rparr>, w)))"

section \<open>FruitDetector\<close>

text \<open>
  The value that \<^verbatim>\<open>JSON.parse\<close> returns. A number is a real (the infinities that an
  overflowing literal gives are left out); an object is the list of its properties. Reading a property of \<^verbatim>\<open>null\<close> throws a \<^verbatim>\<open>TypeError\<close>;
  reading one of a boolean, a number, a string or an array gives \<^verbatim>\<open>undefined\<close> for
  the names the detector reads; \<^verbatim>\<open>undefined\<close> is \<open>None\<close>.
\<close>

datatype json =
    JNull
  | JBool bool
  | JNum real
  | JStr string
  | JArr "json list"
  | JObj "(string \<times> json) list"

fun get_prop :: "json \<Rightarrow> string \<Rightarrow> js_error + json option" where
  "get_prop JNull k = Inl (TypeError (''Cannot read properties of null (reading '' @ k @ '')''))"
| "get_prop (JObj kvs) k = Inr (map_of kvs k)"
| "get_prop _ k = Inr None"

fun truthy :: "json \<Rightarrow> bool" where
  "truthy JNull = False"
| "truthy (JBool b) = b"
| "truthy (JNum x) = (x \<noteq> 0)"
| "truthy (JStr s) = (s \<noteq> [])"
| "truthy (JArr _) = True"
| "truthy (JObj _) = True"

definition truthy_opt :: "json option \<Rightarrow> bool" where
  "truthy_opt v = (case v of None \<Rightarrow> False | Some j \<Rightarrow> truthy j)"

definition is_number :: "json option \<Rightarrow> bool" where
  "is_number v = (case v of Some (JNum _) \<Rightarrow> True | _ \<Rightarrow> False)"

definition num_in_unit :: "json option \<Rightarrow> bool" where
  "num_in_unit v = (case v of Some (JNum x) \<Rightarrow> 0 \<le> x \<and> x \<le> 1 | _ \<Rightarrow> False)"

text \<open>
  The callback of \<^verbatim>\<open>detectionResult.fruits.filter\<close>. Only the first read,
  \<^verbatim>\<open>fruit.name\<close>, can throw: the later reads are of the same \<^verbatim>\<open>fruit\<close>, and
  \<^verbatim>\<open>fruit.boundingBox\<close> is read further only when it is truthy.
\<close>

definition box_field_is_number :: "json \<Rightarrow> string \<Rightarrow> bool" where
  "box_field_is_number box k = (case get_prop box k of Inl _ \<Rightarrow> False | Inr v \<Rightarrow> is_number v)"

definition keep_fruit :: "json \<Rightarrow> js_error + bool" where
  "keep_fruit fruit =
     (case get_prop fruit ''name'' of
        Inl e \<Rightarrow> Inl e
      | Inr name \<Rightarrow>
          Inr (truthy_opt name \<and>
               (case get_prop fruit ''confidence'' of
                  Inl _ \<Rightarrow> False
                | Inr c \<Rightarrow> is_number c \<and> num_in_unit c) \<and>
               (case get_prop fruit ''boundingBox'' of
                  Inl _ \<Rightarrow> False
                | Inr None \<Rightarrow> False
                | Inr (Some box) \<Rightarrow>
                    truthy box \<and>
                    box_field_is_number box ''ymin'' \<and>
                    box_field_is_number box ''xmin'' \<and>
                    box_field_is_number box ''ymax'' \<and>
                    box_field_is_number box ''xmax'')))"

fun filter_fruits :: "json list \<Rightarrow> js_error + json list" where
  "filter_fruits [] = Inr []"
| "filter_fruits (fruit # rest) =
     (case keep_fruit fruit of
        Inl e \<Rightarrow> Inl e
      | Inr keep \<Rightarrow>
          (case filter_fruits rest of
             Inl e \<Rightarrow> Inl e
           | Inr kept \<Rightarrow> Inr (if keep then fruit # kept else kept)))"

fun set_prop :: "string \<Rightarrow> json \<Rightarrow> (string \<times> json) list \<Rightarrow> (string \<times> json) list" where
  "set_prop k v [] = [(k, v)]"
| "set_prop k v (p # ps) = (if fst p = k then (k, v) # ps else p # set_prop k v ps)"

definition str_includes :: "string \<Rightarrow> string \<Rightarrow> bool" where
  "str_includes s p = list_ex (\<lambda>i. take (length p) (drop i s) = p) [0..<Suc (length s)]"

datatype FruitDetectionError = FruitDetectionError string

fun is_Error :: "js_error \<Rightarrow> bool" where
  "is_Error (NonError _) = False"
| "is_Error _ = True"

fun message :: "js_error \<Rightarrow> string" where
  "message (DOMException m) = m"
| "message (Error m) = m"
| "message (TypeError m) = m"
| "message (SyntaxError m) = m"
| "message (RangeError m) = m"
| "message (NonError m) = m"

fun is_SyntaxError :: "js_error \<Rightarrow> bool" where
  "is_SyntaxError (SyntaxError _) = True"
| "is_SyntaxError _ = False"

text \<open>
  The body of the \<^verbatim>\<open>try\<close> block after \<^verbatim>\<open>JSON.parse\<close>, and the \<^verbatim>\<open>catch\<close> block.
\<close>

definition validate_result :: "json \<Rightarrow> js_error + json" where
  "validate_result detectionResult =
     (case get_prop detectionResult ''fruits'' of
        Inl e \<Rightarrow> Inl e
      | Inr fruits \<Rightarrow>
          (case fruits of
             Some (JArr fs) \<Rightarrow>
               (case filter_fruits fs of
                  Inl e \<Rightarrow> Inl e
                | Inr kept \<Rightarrow>
                    (case detectionResult of
                       JObj kvs \<Rightarrow> Inr (JObj (set_prop ''fruits'' (JArr kept) kvs))
                     | _ \<Rightarrow> Inr detectionResult))
           | _ \<Rightarrow> Inl (Error ''Invalid response format from Gemini API'')))"

definition rethrow :: "js_error \<Rightarrow> FruitDetectionError" where
  "rethrow error =
     (if is_SyntaxError error then FruitDetectionError ''Failed to parse detection results''
      else let errorMessage = (if is_Error error then message error else ''Unknown error'')
           in if str_includes errorMessage ''API key''
              then FruitDetectionError ''Invalid API key or API quota exceeded''
              else FruitDetectionError
                     (if errorMessage \<noteq> [] then errorMessage
                      else ''Unknown error occurred during fruit detection''))"

text \<open>
  \<^verbatim>\<open>detectFruits\<close>: \<open>ready\<close> is \<^verbatim>\<open>this.isInitialized && this.model\<close>; \<open>parsed\<close>
  is what the request and \<^verbatim>\<open>JSON.parse\<close> give, the parsed response or the error they
  threw (a \<^verbatim>\<open>SyntaxError\<close> when the text is not JSON).
\<close>

definition detectFruits :: "bool \<Rightarrow> js_error + json \<Rightarrow> FruitDetectionError + json" where
  "detectFruits ready parsed =
     (if \<not> ready
      then Inl (FruitDetectionError ''Gemini API not initialized. Please provide an API key.'')
      else case (case parsed of Inl e \<Rightarrow> Inl e | Inr j \<Rightarrow> validate_result j) of
             Inl error \<Rightarrow> Inl (rethrow error)
           | Inr r \<Rightarrow> Inr r)"

section \<open>Observations\<close>

subsection \<open>Traces\<close>

text \<open>
  What an observer of one call sees: the events the call added to the trace, the
  collections that were visible when a \<^verbatim>\<open>put\<close> settled, the URLs that were revoked,
  the deletes that reached the store.
\<close>

definition emitted :: "world \<Rightarrow> world \<Rightarrow> (event \<times> CapturedMedia list) list" where
  "emitted w w' = drop (length (trace w)) (trace w')"

fun is_put :: "event \<Rightarrow> bool" where
  "is_put (EvPut _ _) = True"
| "is_put _ = False"

definition put_snapshots :: "(event \<times> CapturedMedia list) list \<Rightarrow> CapturedMedia list list" where
  "put_snapshots tr = map snd (filter (\<lambda>p. is_put (fst p)) tr)"

fun revoked_of :: "event \<Rightarrow> string list" where
  "revoked_of (EvRevoke u) = [u]"
| "revoked_of _ = []"

definition revoked_urls :: "(event \<times> CapturedMedia list) list \<Rightarrow> string list" where
  "revoked_urls tr = concat (map (\<lambda>p. revoked_of (fst p)) tr)"

fun is_delete :: "event \<Rightarrow> bool" where
  "is_delete (EvDelete _ _) = True"
| "is_delete _ = False"


subsection \<open>Collections and handles\<close>

text \<open>
  \<^verbatim>\<open>addMedia\<close> stores its argument either as it is or with \<^verbatim>\<open>indexedDbId\<close> set;
  both are the same media item.
\<close>

definition same_media :: "CapturedMedia \<Rightarrow> CapturedMedia \<Rightarrow> bool" where
  "same_media a b = (a\<lparr>indexedDbId := None\<rparr> = b\<lparr>indexedDbId := None\<rparr>)"

definition at_index0 :: "CapturedMedia \<Rightarrow> CapturedMedia list \<Rightarrow> bool" where
  "at_index0 media c = (case c of [] \<Rightarrow> False | h # _ \<Rightarrow> same_media h media)"

definition newest_first_strict :: "CapturedMedia list \<Rightarrow> bool" where
  "newest_first_strict ms = sorted_wrt (\<lambda>a b. timestamp a > timestamp b) ms"

text \<open>
  The transient reference of a handle is its object URL: a URL that starts with
  \<^verbatim>\<open>blob:\<close>, the test the hook makes before every \<^verbatim>\<open>revokeObjectURL\<close>. The empty
  URL that \<^verbatim>\<open>createMediaFromBlob\<close> falls back to is no object URL.
\<close>

definition object_url_of :: "CapturedMedia \<Rightarrow> string option" where
  "object_url_of media = (if startsWith (url media) ''blob:'' then Some (url media) else None)"

subsection \<open>Detection results\<close>

text \<open>
  What a caller reads from a detection result: a property of a value, with
  \<^verbatim>\<open>undefined\<close> where there is none, and the entries of \<^verbatim>\<open>fruits\<close>. Then the
  contract stated for an entry (name, confidence in [0,1], box coordinates in [0,1]), and
  the same contract with the box coordinates only required to be numbers.
\<close>

definition field :: "json \<Rightarrow> string \<Rightarrow> json option" where
  "field j k = (case get_prop j k of Inl _ \<Rightarrow> None | Inr v \<Rightarrow> v)"

definition returned_fruits :: "json \<Rightarrow> json list" where
  "returned_fruits r = (case field r ''fruits'' of Some (JArr fs) \<Rightarrow> fs | _ \<Rightarrow> [])"

definition box_fields :: "string list" where
  "box_fields = [''ymin'', ''xmin'', ''ymax'', ''xmax'']"

definition has_name :: "json \<Rightarrow> bool" where
  "has_name f = truthy_opt (field f ''name'')"

definition confidence_in_unit :: "json \<Rightarrow> bool" where
  "confidence_in_unit f = num_in_unit (field f ''confidence'')"

definition box_all_in_unit :: "json \<Rightarrow> bool" where
  "box_all_in_unit f =
     (case field f ''boundingBox'' of
        None \<Rightarrow> False
      | Some box \<Rightarrow> list_all (\<lambda>k. num_in_unit (field box k)) box_fields)"

definition box_all_numbers :: "json \<Rightarrow> bool" where
  "box_all_numbers f =
     (case field f ''boundingBox'' of
        None \<Rightarrow> False
      | Some box \<Rightarrow> list_all (\<lambda>k. is_number (field box k)) box_fields)"

definition stated_contract :: "json \<Rightarrow> bool" where
  "stated_contract f = (has_name f \<and> confidence_in_unit f \<and> box_all_in_unit f)"

definition checked_contract :: "json \<Rightarrow> bool" where
  "checked_contract f = (has_name f \<and> confidence_in_unit f \<and> box_all_numbers f)"

subsection \<open>Scenarios\<close>

text \<open>
  The scenario of the specification: photo A captured at t = 100, video B at t = 200,
  on a page with an empty store; then a store that holds both, and the gallery [B, A]
  after both captures were added and persisted.
\<close>

definition mediaA :: CapturedMedia where
  "mediaA = \<lparr>id' = ''photo_100_x'', type' = photo, blob = [1, 2, 3], timestamp = 100,
             filename = ''photo_1970-01-01T00-00-00.jpg'', url = ''blob:0'', indexedDbId = None\<rparr>"

definition mediaB :: CapturedMedia where
  "mediaB = \<lparr>id' = ''video_200_y'', type' = video, blob = [4, 5], timestamp = 200,
             filename = ''video_1970-01-01T00-00-00.webm'', url = ''blob:1'', indexedDbId = None\<rparr>"

definition world0 :: world where
  "world0 = \<lparr>capturedMedia = [], isLoading = False, db = False, media_store = [],
             object_urls = [''blob:1'', ''blob:0''], url_seq = 2, faults = [],
             strictMode = False, trace = []\<rparr>"

definition storeAB :: world where
  "storeAB = world0\<lparr>media_store := [storedData mediaA, storedData mediaB]\<rparr>"

definition galleryBA :: world where
  "galleryBA = snd (addMedia mediaB (snd (addMedia mediaA world0)))"


text \<open>
  Pages on which one request fails: \<^verbatim>\<open>getAll\<close> at a page load, \<^verbatim>\<open>put\<close>,
  \<^verbatim>\<open>clear\<close>, and \<^verbatim>\<open>URL.createObjectURL\<close>.
\<close>

definition getAll_fails :: world where
  "getAll_fails = reload (storeAB\<lparr>faults := [FailGetAll]\<rparr>)"

definition put_fails :: world where
  "put_fails = world0\<lparr>media_store := [storedData mediaB], faults := [FailPut]\<rparr>"

definition galleryBA_clear_fails :: world where
  "galleryBA_clear_fails = galleryBA\<lparr>faults := [FailClear]\<rparr>"

definition no_urls :: world where
  "no_urls = world0\<lparr>faults := [FailCreateURL]\<rparr>"

text \<open>A response with one apple whose box reaches beyond the image, and one unnamed entry.\<close>

definition wide_apple :: json where
  "wide_apple = JObj [(''name'', JStr ''apple''), (''confidence'', JNum 0.9),
     (''boundingBox'', JObj [(''ymin'', JNum 0), (''xmin'', JNum 0.5),
                             (''ymax'', JNum 1), (''xmax'', JNum 2)])]"

definition unnamed_entry :: json where
  "unnamed_entry = JObj [(''confidence'', JNum 0.5),
     (''boundingBox'', JObj [(''ymin'', JNum 0), (''xmin'', JNum 0),
                             (''ymax'', JNum 1), (''xmax'', JNum 1)])]"

definition response0 :: json where
  "response0 = JObj [(''fruits'', JArr [wide_apple, unnamed_entry])]"

section \<open>Properties\<close>

lemmas async_defs = resolve_def await_def try_catch_def try_finally_def

lemmas db_defs = init_def ensureDB_def storeMedia_def getAllMedia_def deleteMedia_def
  MediaDatabase_clearAllMedia_def emit_def failing_def

lemmas hook_defs = setCapturedMedia_def setIsLoading_def

subsection \<open>addMedia and the moment the put settles\<close>

text \<open>
  Claim C1, as stated: \<^verbatim>\<open>addMedia(record)\<close> makes the record visible at index 0 of
  the collection before the store put settles. The code awaits \<^verbatim>\<open>storeMedia\<close> first:
  in the scenario the put settles while the collection is still empty.
\<close>

theorem addMedia_visible_before_put_counterexample:
  "put_snapshots (trace (snd (addMedia mediaA world0))) = [[]] \<and>
   \<not> list_all (at_index0 mediaA) (put_snapshots (trace (snd (addMedia mediaA world0))))"
  by (simp add: addMedia_def storedData_def async_defs db_defs hook_defs put_snapshots_def
      at_index0_def world0_def mediaA_def)

text \<open>
  Claim C1, amended: \<^verbatim>\<open>addMedia(record)\<close> never fails; every store event of the call
  (the open and the put) settles while the collection is still the one before the call;
  when the call returns, the record is at index 0 and the old collection follows it.
\<close>

theorem addMedia_prepends_after_put_settles:
  "fst (addMedia media w) = Inr () \<and>
   (\<forall>c \<in> set (map snd (emitted w (snd (addMedia media w)))). c = capturedMedia w) \<and>
   at_index0 media (capturedMedia (snd (addMedia media w))) \<and>
   tl (capturedMedia (snd (addMedia media w))) = capturedMedia w"
  by (simp add: addMedia_def storedData_def async_defs db_defs hook_defs emitted_def
      at_index0_def same_media_def)

theorem addMedia_prepends_after_put_settles_witness:
  "emitted world0 (snd (addMedia mediaA world0))
     = [(EvOpen True, []), (EvPut ''photo_100_x'' True, [])] \<and>
   capturedMedia (snd (addMedia mediaA world0)) = [mediaA\<lparr>indexedDbId := Some ''photo_100_x''\<rparr>] \<and>
   at_index0 mediaA (capturedMedia (snd (addMedia mediaA world0)))"
  using addMedia_prepends_after_put_settles [of mediaA world0]
  by (simp add: addMedia_def storedData_def async_defs db_defs hook_defs emitted_def
      world0_def mediaA_def)

subsection \<open>Restore ordering\<close>

lemma set_insert_by: "set (insert_by cmp x xs) = insert x (set xs)"
  by (induction xs) auto

lemma mset_insert_by: "mset (insert_by cmp x xs) = add_mset x (mset xs)"
  by (induction xs) auto

lemma mset_array_sort: "mset (array_sort cmp xs) = mset xs"
  by (induction xs) (simp_all add: array_sort_def mset_insert_by)

lemma sorted_insert_by:
  "sorted_wrt (\<lambda>a b. timestamp b \<le> timestamp a) xs \<Longrightarrow>
   sorted_wrt (\<lambda>a b. timestamp b \<le> timestamp a) (insert_by newest_first x xs)"
  by (induction xs) (auto simp: newest_first_def set_insert_by)

lemma sorted_array_sort:
  "sorted_wrt (\<lambda>a b. timestamp b \<le> timestamp a) (array_sort newest_first xs)"
  by (induction xs) (simp_all add: array_sort_def sorted_insert_by)

lemma strict_of_distinct:
  "sorted_wrt (\<lambda>a b. timestamp b \<le> timestamp a) xs \<Longrightarrow> distinct (map timestamp xs) \<Longrightarrow>
   sorted_wrt (\<lambda>a b. timestamp b < timestamp a) xs"
proof (induction xs)
  case Nil
  then show ?case by simp
next
  case (Cons a xs)
  have "timestamp b < timestamp a" if "b \<in> set xs" for b
  proof -
    have le: "timestamp b \<le> timestamp a" using Cons.prems(1) that by simp
    have "timestamp b \<in> set (map timestamp xs)" using that by simp
    moreover have "timestamp a \<notin> set (map timestamp xs)" using Cons.prems(2) by simp
    ultimately have "timestamp b \<noteq> timestamp a" by metis
    with le show ?thesis by simp
  qed
  then show ?case using Cons by simp
qed

lemma array_sort_strict:
  assumes "distinct (map timestamp xs)"
  shows "newest_first_strict (array_sort newest_first xs)"
proof -
  have "mset (map timestamp (array_sort newest_first xs)) = mset (map timestamp xs)"
    by (simp add: mset_array_sort)
  then have "distinct (map timestamp (array_sort newest_first xs))"
    using assms by (metis distinct_count_atmost_1 set_mset_mset)
  then show ?thesis
    unfolding newest_first_strict_def
    using strict_of_distinct [OF sorted_array_sort] by blast
qed

lemma restore_each_ok:
  "restore_each ss w = (Inr ms, w') \<Longrightarrow>
   map storedData ms = ss \<and> capturedMedia w' = capturedMedia w"
  by (induction ss arbitrary: w ms w')
     (auto simp: createObjectURL_def storedData_def emit_def Let_def
           split: if_splits prod.splits sum.splits)

lemma restore_each_err:
  "restore_each ss w = (Inl e, w') \<Longrightarrow> capturedMedia w' = capturedMedia w"
  by (induction ss arbitrary: w w')
     (auto simp: createObjectURL_def emit_def Let_def
           split: if_splits prod.splits sum.splits dest: restore_each_ok)

lemma restore_each_total:
  "\<not> failing FailCreateURL w \<Longrightarrow> \<exists>ms w'. restore_each ss w = (Inr ms, w')"
proof (induction ss arbitrary: w)
  case Nil
  then show ?case by simp
next
  case (Cons s ss)
  let ?w1 = "snd (createObjectURL (blob s) w)"
  have "\<not> failing FailCreateURL ?w1"
    using Cons.prems by (simp add: createObjectURL_def emit_def failing_def Let_def)
  from Cons.IH [OF this] obtain ms w' where "restore_each ss ?w1 = (Inr ms, w')" by blast
  then show ?case
    using Cons.prems by (simp add: createObjectURL_def Let_def)
qed

lemma getAllMedia_cases:
  "(\<exists>e w1. getAllMedia w = (Inl e, w1) \<and> capturedMedia w1 = capturedMedia w
       \<and> isLoading w1 = isLoading w) \<or>
   (\<exists>w1. getAllMedia w = (Inr (media_store w), w1) \<and> capturedMedia w1 = capturedMedia w
       \<and> faults w1 = faults w \<and> isLoading w1 = isLoading w)"
  by (simp add: async_defs db_defs)

lemma getAllMedia_ok:
  "faults w = [] \<Longrightarrow> \<exists>w1. getAllMedia w = (Inr (media_store w), w1) \<and> faults w1 = []"
  by (simp add: async_defs db_defs)

lemma timestamp_storedData: "map timestamp (map storedData ms) = map timestamp ms"
  by (simp add: storedData_def)

lemma load_unfold:
  "loadPersistedMedia w =
     (case getAllMedia w of
        (Inl e, w1) \<Rightarrow> (Inr (), w1\<lparr>isLoading := False\<rparr>)
      | (Inr ss, w1) \<Rightarrow>
          if ss = [] then (Inr (), w1\<lparr>isLoading := False\<rparr>)
          else (case restore_each ss w1 of
                  (Inl e, w2) \<Rightarrow> (Inr (), w2\<lparr>isLoading := False\<rparr>)
                | (Inr ms, w2) \<Rightarrow>
                    (Inr (), w2\<lparr>capturedMedia := array_sort newest_first ms,
                                 isLoading := False\<rparr>)))"
  by (simp add: loadPersistedMedia_def async_defs hook_defs split: prod.splits sum.splits)

lemma load_collection:
  "capturedMedia (snd (loadPersistedMedia w)) = capturedMedia w \<or>
   (\<exists>ms. map storedData ms = media_store w \<and>
      capturedMedia (snd (loadPersistedMedia w)) = array_sort newest_first ms)"
proof -
  from getAllMedia_cases [of w] show ?thesis
  proof (elim disjE exE conjE)
    fix e w1
    assume "getAllMedia w = (Inl e, w1)" "capturedMedia w1 = capturedMedia w"
    then show ?thesis by (simp add: load_unfold)
  next
    fix w1
    assume g: "getAllMedia w = (Inr (media_store w), w1)" "capturedMedia w1 = capturedMedia w"
    show ?thesis
    proof (cases "restore_each (media_store w) w1")
      case (Pair r w2)
      show ?thesis
      proof (cases r)
        case (Inl e)
        with Pair g restore_each_err [of "media_store w" w1 e w2] show ?thesis
          by (simp add: load_unfold)
      next
        case (Inr ms)
        show ?thesis
        proof (cases "media_store w = []")
          case True
          with g show ?thesis by (simp add: load_unfold)
        next
          case False
          from restore_each_ok [of "media_store w" w1 ms w2] Pair Inr
          have m: "map storedData ms = media_store w" by simp
          from False g Pair Inr
          have "capturedMedia (snd (loadPersistedMedia w)) = array_sort newest_first ms"
            by (simp add: load_unfold)
          with m show ?thesis by blast
        qed
      qed
    qed
  qed
qed

lemma load_collection_ok:
  assumes "faults w = []"
  shows "\<exists>ms. map storedData ms = media_store w \<and>
      capturedMedia (snd (loadPersistedMedia w)) =
        (if media_store w = [] then capturedMedia w else array_sort newest_first ms)"
proof -
  from getAllMedia_ok [OF assms] obtain w1 where
    g: "getAllMedia w = (Inr (media_store w), w1)" and f: "faults w1 = []" by blast
  have c: "capturedMedia w1 = capturedMedia w"
    using getAllMedia_cases [of w] g by auto
  from f have "\<not> failing FailCreateURL w1" by (simp add: failing_def)
  from restore_each_total [OF this] obtain ms w2 where
    r: "restore_each (media_store w) w1 = (Inr ms, w2)" by blast
  from restore_each_ok [OF r] g r c show ?thesis
    by (auto simp: load_unfold)
qed

text \<open>
  Claim C2: for stored records with distinct timestamps, in whatever order the store
  holds them, the collection after the restore of a page load is sorted strictly
  descending by timestamp. When nothing is made to fail, the collection holds exactly
  the stored records.
\<close>

theorem restore_sorted_newest_first:
  assumes "distinct (map timestamp (media_store w))"
  shows "newest_first_strict (capturedMedia (snd (loadPersistedMedia (reload w)))) \<and>
         (faults w = [] \<longrightarrow>
            mset (map storedData (capturedMedia (snd (loadPersistedMedia (reload w)))))
              = mset (media_store w))"
proof -
  let ?w = "reload w"
  have st: "media_store ?w = media_store w" and em: "capturedMedia ?w = []"
    and fl: "faults ?w = faults w"
    by (simp_all add: reload_def)
  have sorted: "newest_first_strict (array_sort newest_first ms)"
    if "map storedData ms = media_store w" for ms
  proof -
    have "map timestamp ms = map timestamp (media_store w)"
      using that timestamp_storedData [of ms] by simp
    with assms show ?thesis by (simp add: array_sort_strict)
  qed
  have one: "newest_first_strict (capturedMedia (snd (loadPersistedMedia ?w)))"
    using load_collection [of ?w] sorted
    by (auto simp: st em newest_first_strict_def)
  have two: "mset (map storedData (capturedMedia (snd (loadPersistedMedia ?w))))
              = mset (media_store w)" if "faults w = []"
  proof -
    from that fl have "faults ?w = []" by simp
    from load_collection_ok [OF this] obtain ms where
      ms: "map storedData ms = media_store w"
      and c: "capturedMedia (snd (loadPersistedMedia ?w)) =
        (if media_store w = [] then [] else array_sort newest_first ms)"
      by (auto simp: st em)
    have "mset (map storedData (array_sort newest_first ms)) = mset (map storedData ms)"
      by (simp add: mset_array_sort)
    with ms c show ?thesis by auto
  qed
  from one two show ?thesis by blast
qed

theorem restore_sorted_newest_first_witness:
  "distinct (map timestamp (media_store storeAB)) \<and> faults storeAB = [] \<and>
   map id' (capturedMedia (snd (loadPersistedMedia (reload storeAB))))
     = [''video_200_y'', ''photo_100_x''] \<and>
   newest_first_strict (capturedMedia (snd (loadPersistedMedia (reload storeAB))))"
  using restore_sorted_newest_first [of storeAB]
  by (simp add: storeAB_def world0_def mediaA_def mediaB_def storedData_def reload_def
      loadPersistedMedia_def async_defs db_defs hook_defs createObjectURL_def
      array_sort_def newest_first_def newest_first_strict_def Let_def)

subsection \<open>Restore failure\<close>

text \<open>
  Claim C3: when the store read of the restore fails, \<^verbatim>\<open>loadPersistedMedia\<close> still
  resolves, the collection (empty at a page load) stays empty, and the loading flag is
  cleared.
\<close>

theorem restore_failure_is_non_fatal:
  assumes "fst (getAllMedia w) = Inl e" and "capturedMedia w = []"
  shows "fst (loadPersistedMedia w) = Inr () \<and>
         capturedMedia (snd (loadPersistedMedia w)) = [] \<and>
         \<not> isLoading (snd (loadPersistedMedia w))"
proof -
  from assms(1) getAllMedia_cases [of w] obtain w1 where
    "getAllMedia w = (Inl e, w1)" "capturedMedia w1 = capturedMedia w"
    by auto
  with assms(2) show ?thesis by (simp add: load_unfold)
qed

theorem restore_failure_is_non_fatal_witness:
  "fst (getAllMedia getAll_fails) = Inl (DOMException ''getAll'') \<and>
   capturedMedia getAll_fails = [] \<and> isLoading getAll_fails \<and>
   fst (loadPersistedMedia getAll_fails) = Inr () \<and>
   capturedMedia (snd (loadPersistedMedia getAll_fails)) = [] \<and>
   \<not> isLoading (snd (loadPersistedMedia getAll_fails))"
  using restore_failure_is_non_fatal [of getAll_fails "DOMException ''getAll''"]
  by (simp add: getAll_fails_def storeAB_def world0_def reload_def async_defs db_defs)

subsection \<open>Degraded add\<close>

lemma storeMedia_fails_store:
  "fst (storeMedia d w) = Inl e \<Longrightarrow> media_store (snd (storeMedia d w)) = media_store w"
  by (simp add: async_defs db_defs split: if_splits)

lemma addMedia_unfold:
  "addMedia media w =
     (case storeMedia (storedData media) w of
        (Inl e, w1) \<Rightarrow> (Inr (), w1\<lparr>capturedMedia := media # capturedMedia w1\<rparr>)
      | (Inr k, w1) \<Rightarrow>
          (Inr (), w1\<lparr>capturedMedia := media\<lparr>indexedDbId := Some k\<rparr> # capturedMedia w1\<rparr>))"
  by (simp add: addMedia_def async_defs hook_defs split: prod.splits sum.splits)

lemma storeMedia_collection:
  "capturedMedia (snd (storeMedia d w)) = capturedMedia w"
  by (simp add: async_defs db_defs)

lemma set_array_sort: "set (array_sort cmp xs) = set xs"
  using mset_array_sort [of cmp xs] by (metis set_mset_mset)

lemma restored_ids:
  "id' ` set (capturedMedia (snd (loadPersistedMedia (reload w)))) \<subseteq> id' ` set (media_store w)"
proof -
  let ?w = "reload w"
  have st: "media_store ?w = media_store w" and em: "capturedMedia ?w = []"
    by (simp_all add: reload_def)
  from load_collection [of ?w] show ?thesis
  proof
    assume "capturedMedia (snd (loadPersistedMedia ?w)) = capturedMedia ?w"
    with em show ?thesis by simp
  next
    assume "\<exists>ms. map storedData ms = media_store ?w \<and>
      capturedMedia (snd (loadPersistedMedia ?w)) = array_sort newest_first ms"
    then obtain ms where ms: "map storedData ms = media_store w"
      and c: "capturedMedia (snd (loadPersistedMedia ?w)) = array_sort newest_first ms"
      by (auto simp: st)
    have "map id' ms = map id' (map storedData ms)" by (simp add: storedData_def)
    with ms have "id' ` set ms = id' ` set (media_store w)"
      by (metis list.set_map)
    with c show ?thesis by (simp add: set_array_sort)
  qed
qed

text \<open>
  Claim C4: when the put fails, \<^verbatim>\<open>addMedia(record)\<close> still resolves and prepends
  the record to the collection; the store has no entry with the id of the record (it had
  none before), so the restore of the next page load does not contain the record.
\<close>

theorem addMedia_survives_put_failure:
  assumes "fst (storeMedia (storedData media) w) = Inl e"
      and "id' media \<notin> id' ` set (media_store w)"
  shows "fst (addMedia media w) = Inr () \<and>
         capturedMedia (snd (addMedia media w)) = media # capturedMedia w \<and>
         id' media \<notin> id' ` set (capturedMedia
            (snd (loadPersistedMedia (reload (snd (addMedia media w))))))"
proof -
  obtain w1 where s: "storeMedia (storedData media) w = (Inl e, w1)"
    using assms(1) by (cases "storeMedia (storedData media) w") auto
  from s storeMedia_fails_store [OF assms(1)] have st: "media_store w1 = media_store w"
    by simp
  from s storeMedia_collection [of "storedData media" w]
  have c: "capturedMedia w1 = capturedMedia w" by simp
  from s have a: "addMedia media w = (Inr (), w1\<lparr>capturedMedia := media # capturedMedia w1\<rparr>)"
    by (simp add: addMedia_unfold)
  have "id' ` set (capturedMedia (snd (loadPersistedMedia (reload (snd (addMedia media w))))))
          \<subseteq> id' ` set (media_store w)"
    using restored_ids [of "snd (addMedia media w)"] a st by simp
  with assms(2) a c show ?thesis by auto
qed

theorem addMedia_survives_put_failure_witness:
  "fst (storeMedia (storedData mediaA) put_fails) = Inl (DOMException ''put'') \<and>
   id' mediaA \<notin> id' ` set (media_store put_fails) \<and>
   capturedMedia (snd (addMedia mediaA put_fails)) = [mediaA] \<and>
   map id' (capturedMedia (snd (loadPersistedMedia (reload (snd (addMedia mediaA put_fails))))))
     = [''video_200_y'']"
  using addMedia_survives_put_failure [of mediaA put_fails "DOMException ''put''"]
  by (simp add: put_fails_def world0_def mediaA_def mediaB_def storedData_def reload_def
      addMedia_def loadPersistedMedia_def async_defs db_defs hook_defs createObjectURL_def
      array_sort_def newest_first_def Let_def)

subsection \<open>Removal\<close>

lemma deleteMedia_frame:
  "\<exists>evs. trace (snd (try_catch (deleteMedia k) (\<lambda>error. resolve ()) w)) = trace w @ evs \<and>
     revoked_urls evs = [] \<and>
     capturedMedia (snd (try_catch (deleteMedia k) (\<lambda>error. resolve ()) w)) = capturedMedia w \<and>
     object_urls (snd (try_catch (deleteMedia k) (\<lambda>error. resolve ()) w)) = object_urls w"
  by (simp add: async_defs db_defs revoked_urls_def)

lemma revoked_urls_append: "revoked_urls (xs @ ys) = revoked_urls xs @ revoked_urls ys"
  by (simp add: revoked_urls_def)

lemma deletes_frame:
  "\<exists>evs. trace (per_updater_call w0
               (\<lambda>s. snd (try_catch (deleteMedia k) (\<lambda>error. resolve ()) s)) w) = trace w @ evs \<and>
     revoked_urls evs = [] \<and>
     capturedMedia (per_updater_call w0
        (\<lambda>s. snd (try_catch (deleteMedia k) (\<lambda>error. resolve ()) s)) w) = capturedMedia w \<and>
     object_urls (per_updater_call w0
        (\<lambda>s. snd (try_catch (deleteMedia k) (\<lambda>error. resolve ()) s)) w) = object_urls w"
proof (cases "strictMode w0")
  case False
  with deleteMedia_frame [of k w] show ?thesis by (simp add: per_updater_call_def)
next
  case True
  let ?s = "snd (try_catch (deleteMedia k) (\<lambda>error. resolve ()) w)"
  from deleteMedia_frame [of k w] obtain evs1 where
    a: "trace ?s = trace w @ evs1" "revoked_urls evs1 = []"
       "capturedMedia ?s = capturedMedia w" "object_urls ?s = object_urls w"
    by blast
  from deleteMedia_frame [of k ?s] obtain evs2 where
    b: "trace (snd (try_catch (deleteMedia k) (\<lambda>error. resolve ()) ?s)) = trace ?s @ evs2"
       "revoked_urls evs2 = []"
       "capturedMedia (snd (try_catch (deleteMedia k) (\<lambda>error. resolve ()) ?s)) = capturedMedia ?s"
       "object_urls (snd (try_catch (deleteMedia k) (\<lambda>error. resolve ()) ?s)) = object_urls ?s"
    by blast
  have "revoked_urls (evs1 @ evs2) = []"
    using a(2) b(2) by (simp add: revoked_urls_append)
  moreover have "trace (snd (try_catch (deleteMedia k) (\<lambda>error. resolve ()) ?s))
      = trace w @ (evs1 @ evs2)"
    using a(1) b(1) by simp
  ultimately show ?thesis
    using True a(3,4) b(3,4) by (auto simp: per_updater_call_def)
qed

lemma emitted_append: "trace w' = trace w @ evs \<Longrightarrow> emitted w w' = evs"
  by (simp add: emitted_def)





text \<open>
  A handle without an object URL: the collection loses the id as well, and no release
  call is made.
\<close>

lemma removeMedia_without_object_url:
  assumes "find (\<lambda>m. id' m = i) (capturedMedia w) = Some h"
      and "object_url_of h = None"
  shows "i \<notin> id' ` set (capturedMedia (snd (removeMedia i w))) \<and>
         revoked_urls (emitted w (snd (removeMedia i w))) = []"
proof -
  from assms(2) have b: "\<not> startsWith (url h) ''blob:''"
    by (auto simp: object_url_of_def split: if_splits)
  let ?w2 = "setCapturedMedia (\<lambda>_. filter (\<lambda>m. id' m \<noteq> i) (capturedMedia w)) w"
  have w2: "trace ?w2 = trace w"
    "capturedMedia ?w2 = filter (\<lambda>m. id' m \<noteq> i) (capturedMedia w)"
    by (simp_all add: hook_defs)
  have "\<exists>evs. trace (snd (removeMedia i w)) = trace ?w2 @ evs \<and> revoked_urls evs = [] \<and>
          capturedMedia (snd (removeMedia i w)) = capturedMedia ?w2"
  proof (cases "indexedDbId h")
    case None
    with assms(1) b show ?thesis
      by (simp add: removeMedia_def Let_def revoked_urls_def)
  next
    case (Some k)
    show ?thesis
    proof (cases "k = []")
      case True
      with Some assms(1) b show ?thesis
        by (simp add: removeMedia_def Let_def revoked_urls_def)
    next
      case False
      with Some assms(1) b
      have "snd (removeMedia i w) = per_updater_call w
              (\<lambda>s. snd (try_catch (deleteMedia k) (\<lambda>error. resolve ()) s)) ?w2"
        by (simp add: removeMedia_def Let_def)
      with deletes_frame [of w k ?w2] show ?thesis by auto
    qed
  qed
  then obtain evs where
    t: "trace (snd (removeMedia i w)) = trace w @ evs"
    and r: "revoked_urls evs = []"
    and c: "capturedMedia (snd (removeMedia i w)) = filter (\<lambda>m. id' m \<noteq> i) (capturedMedia w)"
    using w2 by auto
  from emitted_append [OF t] r c show ?thesis by auto
qed

text \<open>
  Claim C10: for an id that is not in the collection, \<^verbatim>\<open>removeMedia(id)\<close> changes
  nothing: the collection is the same, no URL is revoked and no store delete is issued.
\<close>

theorem removeMedia_absent_id_is_noop:
  assumes "i \<notin> id' ` set (capturedMedia w)"
  shows "removeMedia i w = (Inr (), w) \<and>
         capturedMedia (snd (removeMedia i w)) = capturedMedia w \<and>
         revoked_urls (emitted w (snd (removeMedia i w))) = [] \<and>
         filter (\<lambda>p. is_delete (fst p)) (emitted w (snd (removeMedia i w))) = []"
proof -
  from assms have "find (\<lambda>m. id' m = i) (capturedMedia w) = None"
    by (auto simp: find_None_iff)
  moreover from assms have "filter (\<lambda>m. id' m \<noteq> i) (capturedMedia w) = capturedMedia w"
    by (auto simp: filter_id_conv)
  ultimately have "removeMedia i w = (Inr (), w)"
    by (simp add: removeMedia_def Let_def hook_defs)
  then show ?thesis by (simp add: emitted_def revoked_urls_def)
qed

theorem removeMedia_absent_id_is_noop_witness:
  "''photo_999_z'' \<notin> id' ` set (capturedMedia galleryBA) \<and>
   map id' (capturedMedia galleryBA) = [''video_200_y'', ''photo_100_x''] \<and>
   removeMedia ''photo_999_z'' galleryBA = (Inr (), galleryBA)"
  using removeMedia_absent_id_is_noop [of "''photo_999_z''" galleryBA]
  by (simp add: galleryBA_def world0_def mediaA_def mediaB_def storedData_def
      addMedia_def async_defs db_defs hook_defs)

subsection \<open>Clear all\<close>

lemma revoke_each_trace:
  "trace (revoke_each ms w) =
     trace w @ map (\<lambda>u. (EvRevoke u, capturedMedia w)) (List.map_filter object_url_of ms)"
  by (induction ms arbitrary: w)
     (simp_all add: List.map_filter_def object_url_of_def revokeObjectURL_def emit_def)

lemma revoke_each_urls:
  "object_urls (revoke_each ms w) =
     filter (\<lambda>u. u \<notin> set (List.map_filter object_url_of ms)) (object_urls w)"
proof (induction ms arbitrary: w)
  case Nil
  then show ?case by (simp add: List.map_filter_def)
next
  case (Cons m ms)
  show ?case
  proof (cases "startsWith (url m) ''blob:''")
    case True
    then have "object_urls (revoke_each (m # ms) w) =
        filter (\<lambda>u. u \<notin> set (List.map_filter object_url_of ms))
          (removeAll (url m) (object_urls w))"
      by (simp add: Cons.IH revokeObjectURL_def emit_def)
    also have "\<dots> = filter (\<lambda>u. u \<notin> set (List.map_filter object_url_of (m # ms)))
          (object_urls w)"
      using True
      by (auto simp: List.map_filter_def object_url_of_def removeAll_filter_not_eq
               intro: filter_cong)
    finally show ?thesis .
  next
    case False
    then show ?thesis
      by (simp add: Cons.IH List.map_filter_def object_url_of_def)
  qed
qed

lemma revoke_each_collection: "capturedMedia (revoke_each ms w) = capturedMedia w"
  by (induction ms arbitrary: w) (simp_all add: revokeObjectURL_def emit_def)

lemma revoked_urls_revokes:
  "revoked_urls (map (\<lambda>u. (EvRevoke u, c)) us) = us"
  by (induction us) (simp_all add: revoked_urls_def)

lemma clear_frame:
  "\<exists>evs w1. try_catch MediaDatabase_clearAllMedia (\<lambda>error. resolve ()) w = (Inr (), w1) \<and>
     trace w1 = trace w @ evs \<and> revoked_urls evs = [] \<and>
     capturedMedia w1 = capturedMedia w \<and> object_urls w1 = object_urls w"
  by (simp add: async_defs db_defs revoked_urls_def)

lemma clearAllMedia_effect:
  "\<exists>evs. fst (clearAllMedia w) = Inr () \<and>
     capturedMedia (snd (clearAllMedia w)) = [] \<and>
     emitted w (snd (clearAllMedia w)) =
       evs @ map (\<lambda>u. (EvRevoke u, capturedMedia w))
               (List.map_filter object_url_of (capturedMedia w)) \<and>
     revoked_urls evs = [] \<and>
     object_urls (snd (clearAllMedia w)) =
       filter (\<lambda>u. u \<notin> set (List.map_filter object_url_of (capturedMedia w)))
         (object_urls w)"
proof -
  from clear_frame [of w] obtain evs w1 where
    c: "try_catch MediaDatabase_clearAllMedia (\<lambda>error. resolve ()) w = (Inr (), w1)"
    and t: "trace w1 = trace w @ evs" and r: "revoked_urls evs = []"
    and m: "capturedMedia w1 = capturedMedia w" and o: "object_urls w1 = object_urls w"
    by blast
  from c have e: "clearAllMedia w =
      (Inr (), setCapturedMedia (\<lambda>_. []) (revoke_each (capturedMedia w) w1))"
    by (simp add: clearAllMedia_def Let_def await_def)
  have "trace (snd (clearAllMedia w)) =
      trace w @ evs @ map (\<lambda>u. (EvRevoke u, capturedMedia w))
               (List.map_filter object_url_of (capturedMedia w))"
    by (simp add: e hook_defs revoke_each_trace t m)
  then have "emitted w (snd (clearAllMedia w)) =
      evs @ map (\<lambda>u. (EvRevoke u, capturedMedia w))
               (List.map_filter object_url_of (capturedMedia w))"
    by (rule emitted_append)
  moreover have "object_urls (snd (clearAllMedia w)) =
       filter (\<lambda>u. u \<notin> set (List.map_filter object_url_of (capturedMedia w)))
         (object_urls w)"
    by (simp add: e hook_defs revoke_each_urls o)
  moreover have "capturedMedia (snd (clearAllMedia w)) = []" "fst (clearAllMedia w) = Inr ()"
    by (simp_all add: e hook_defs)
  ultimately show ?thesis using r by blast
qed

lemma object_url_in_map_filter:
  "m \<in> set ms \<Longrightarrow> object_url_of m = Some u \<Longrightarrow> u \<in> set (List.map_filter object_url_of ms)"
  by (force simp: List.map_filter_def)

text \<open>
  Claim C6: \<^verbatim>\<open>clearAllMedia\<close> always resolves and leaves the collection empty, and
  every object URL held by a handle of the collection has been revoked and is no longer
  live. The statement has no condition on the store: it holds when \<^verbatim>\<open>clear\<close> or the
  opening of the database fails.
\<close>

theorem clearAllMedia_empties_and_releases:
  "fst (clearAllMedia w) = Inr () \<and>
   capturedMedia (snd (clearAllMedia w)) = [] \<and>
   (\<forall>m \<in> set (capturedMedia w). \<forall>u. object_url_of m = Some u \<longrightarrow>
      u \<in> set (revoked_urls (emitted w (snd (clearAllMedia w)))) \<and>
      u \<notin> set (object_urls (snd (clearAllMedia w))))"
proof -
  from clearAllMedia_effect [of w] obtain evs where
    f: "fst (clearAllMedia w) = Inr ()" and c: "capturedMedia (snd (clearAllMedia w)) = []"
    and e: "emitted w (snd (clearAllMedia w)) =
       evs @ map (\<lambda>u. (EvRevoke u, capturedMedia w))
               (List.map_filter object_url_of (capturedMedia w))"
    and r: "revoked_urls evs = []"
    and o: "object_urls (snd (clearAllMedia w)) =
       filter (\<lambda>u. u \<notin> set (List.map_filter object_url_of (capturedMedia w)))
         (object_urls w)"
    by blast
  have rv: "revoked_urls (emitted w (snd (clearAllMedia w))) =
      List.map_filter object_url_of (capturedMedia w)"
    by (simp add: e revoked_urls_append r revoked_urls_revokes)
  show ?thesis
    using f c object_url_in_map_filter [of _ "capturedMedia w"]
    by (auto simp: rv o)
qed

theorem clearAllMedia_empties_and_releases_witness:
  "map object_url_of (capturedMedia galleryBA_clear_fails) = [Some ''blob:1'', Some ''blob:0''] \<and>
   failing FailClear galleryBA_clear_fails \<and>
   fst (clearAllMedia galleryBA_clear_fails) = Inr () \<and>
   capturedMedia (snd (clearAllMedia galleryBA_clear_fails)) = [] \<and>
   revoked_urls (emitted galleryBA_clear_fails (snd (clearAllMedia galleryBA_clear_fails)))
     = [''blob:1'', ''blob:0''] \<and>
   object_urls (snd (clearAllMedia galleryBA_clear_fails)) = [] \<and>
   map id' (media_store (snd (clearAllMedia galleryBA_clear_fails)))
     = [''photo_100_x'', ''video_200_y'']"
  using clearAllMedia_empties_and_releases [of galleryBA_clear_fails]
  by (simp add: galleryBA_clear_fails_def galleryBA_def world0_def mediaA_def mediaB_def
      storedData_def addMedia_def clearAllMedia_def object_url_of_def startsWith_def
      revokeObjectURL_def revoked_urls_def emitted_def
      async_defs db_defs hook_defs Let_def)

subsection \<open>Detection results\<close>

lemma map_of_set_prop: "map_of (set_prop k v kvs) k = Some v"
  by (induction kvs) auto

lemma box_field_is_number_field: "box_field_is_number box k = is_number (field box k)"
  by (cases "get_prop box k") (auto simp: box_field_is_number_def field_def is_number_def)

lemma number_field_truthy: "is_number (field box k) \<Longrightarrow> truthy box"
  by (cases box) (auto simp: field_def is_number_def)

lemma keep_fruit_checked: "keep_fruit f = Inr b \<Longrightarrow> b = checked_contract f"
proof (cases f)
  case JNull
  assume "keep_fruit f = Inr b"
  with JNull show ?thesis by (simp add: keep_fruit_def)
next
  case (JObj kvs)
  assume k: "keep_fruit f = Inr b"
  show ?thesis
  proof (cases "map_of kvs ''boundingBox''")
    case None
    with k JObj show ?thesis
      by (auto simp: keep_fruit_def checked_contract_def box_all_numbers_def field_def)
  next
    case (Some box)
    with k JObj show ?thesis
      using number_field_truthy [of box "''ymin''"]
      by (auto simp: keep_fruit_def checked_contract_def box_all_numbers_def field_def
          has_name_def confidence_in_unit_def box_fields_def box_field_is_number_field
          num_in_unit_def is_number_def split: option.splits json.splits)
  qed
qed (auto simp: keep_fruit_def checked_contract_def has_name_def field_def truthy_opt_def)

lemma filter_fruits_checked:
  "filter_fruits fs = Inr kept \<Longrightarrow> kept = filter checked_contract fs"
proof (induction fs arbitrary: kept)
  case Nil
  then show ?case by simp
next
  case (Cons f fs)
  from Cons.prems obtain b kept' where
    k: "keep_fruit f = Inr b" and r: "filter_fruits fs = Inr kept'"
    and e: "kept = (if b then f # kept' else kept')"
    by (auto split: sum.splits)
  from keep_fruit_checked [OF k] Cons.IH [OF r] e show ?case by simp
qed

lemma validate_result_fruits:
  assumes "validate_result j = Inr r"
  shows "\<exists>fs. field j ''fruits'' = Some (JArr fs) \<and>
           field r ''fruits'' = Some (JArr (filter checked_contract fs))"
proof (cases j)
  case (JObj kvs)
  with assms obtain fs kept where
    f: "map_of kvs ''fruits'' = Some (JArr fs)" and k: "filter_fruits fs = Inr kept"
    and r: "r = JObj (set_prop ''fruits'' (JArr kept) kvs)"
    by (auto simp: validate_result_def split: option.splits json.splits sum.splits)
  from filter_fruits_checked [OF k] f r JObj show ?thesis
    by (simp add: field_def map_of_set_prop)
qed (insert assms, auto simp: validate_result_def)

text \<open>
  Claim C9, amended: when \<^verbatim>\<open>detectFruits\<close> returns a result, its \<^verbatim>\<open>fruits\<close> are
  exactly the entries of the response that have a truthy name, a confidence that is a
  number in [0,1] and a bounding box whose four coordinates are numbers; the range of the
  coordinates is not checked.
\<close>

theorem detectFruits_returns_checked_entries:
  assumes "detectFruits ready parsed = Inr r"
  shows "\<exists>j fs. parsed = Inr j \<and> field j ''fruits'' = Some (JArr fs) \<and>
           field r ''fruits'' = Some (JArr (returned_fruits r)) \<and>
           returned_fruits r = filter checked_contract fs \<and>
           (\<forall>f \<in> set (returned_fruits r). checked_contract f)"
proof -
  from assms obtain j where p: "parsed = Inr j" and v: "validate_result j = Inr r"
    by (auto simp: detectFruits_def split: if_splits sum.splits)
  from validate_result_fruits [OF v] obtain fs where
    "field j ''fruits'' = Some (JArr fs)"
    "field r ''fruits'' = Some (JArr (filter checked_contract fs))" by blast
  with p show ?thesis by (auto simp: returned_fruits_def)
qed

text \<open>
  Claim C9, as stated: every returned entry has bounding box coordinates in [0,1]. The
  filter tests only the type of the coordinates: an entry with \<^verbatim>\<open>xmax = 2\<close> is
  returned.
\<close>

theorem detectFruits_box_range_counterexample:
  "detectFruits True (Inr response0) = Inr (JObj [(''fruits'', JArr [wide_apple])]) \<and>
   returned_fruits (JObj [(''fruits'', JArr [wide_apple])]) = [wide_apple] \<and>
   \<not> stated_contract wide_apple"
  by (simp add: detectFruits_def validate_result_def keep_fruit_def response0_def
      wide_apple_def unnamed_entry_def returned_fruits_def field_def stated_contract_def
      box_all_in_unit_def box_fields_def num_in_unit_def is_number_def truthy_opt_def
      box_field_is_number_def)

theorem detectFruits_returns_checked_entries_witness:
  "detectFruits True (Inr response0) = Inr (JObj [(''fruits'', JArr [wide_apple])]) \<and>
   returned_fruits (JObj [(''fruits'', JArr [wide_apple])]) = [wide_apple] \<and>
   checked_contract wide_apple \<and> \<not> checked_contract unnamed_entry"
  using detectFruits_returns_checked_entries [of True "Inr response0" "JObj [(''fruits'', JArr [wide_apple])]"]
  by (simp add: detectFruits_def validate_result_def keep_fruit_def response0_def
      wide_apple_def unnamed_entry_def returned_fruits_def field_def checked_contract_def
      has_name_def confidence_in_unit_def
      box_all_numbers_def box_fields_def num_in_unit_def is_number_def truthy_opt_def
      box_field_is_number_def)

subsection \<open>Idempotent put\<close>

lemma objectStore_put_idem: "objectStore_put v (objectStore_put v xs) = objectStore_put v xs"
  by (induction xs) auto

lemma objectStore_put_ids:
  "id' ` set (objectStore_put v xs) = insert (id' v) (id' ` set xs)"
  by (induction xs) auto

lemma objectStore_put_distinct:
  "distinct (map id' xs) \<Longrightarrow> distinct (map id' (objectStore_put v xs))"
proof (induction xs)
  case Nil
  then show ?case by simp
next
  case (Cons x xs)
  show ?case
  proof (cases "id' x = id' v")
    case True
    with Cons.prems show ?thesis by simp
  next
    case False
    have "id' x \<notin> id' ` set (objectStore_put v xs)"
      using Cons.prems False by (simp add: objectStore_put_ids)
    with Cons False show ?thesis by simp
  qed
qed

lemma objectStore_put_entry:
  "distinct (map id' xs) \<Longrightarrow> filter (\<lambda>x. id' x = id' v) (objectStore_put v xs) = [v]"
proof (induction xs)
  case Nil
  then show ?case by simp
next
  case (Cons x xs)
  show ?case
  proof (cases "id' x = id' v")
    case True
    from Cons.prems True have "id' v \<notin> set (map id' xs)" by simp
    then have "\<forall>y \<in> set xs. id' y \<noteq> id' v" by (metis imageI list.set_map)
    then have "filter (\<lambda>x. id' x = id' v) xs = []" by (simp add: filter_empty_conv)
    with True show ?thesis by simp
  next
    case False
    with Cons show ?thesis by simp
  qed
qed

lemma storeMedia_ok:
  assumes "fst (storeMedia d w) = Inr k"
  shows "k = id' d \<and> media_store (snd (storeMedia d w)) = objectStore_put d (media_store w) \<and>
         db (snd (storeMedia d w)) \<and> faults (snd (storeMedia d w)) = faults w \<and>
         \<not> failing FailPut w"
  using assms by (simp add: async_defs db_defs split: if_splits)

lemma storeMedia_open:
  assumes "db w" and "\<not> failing FailPut w"
  shows "fst (storeMedia d w) = Inr (id' d) \<and>
         media_store (snd (storeMedia d w)) = objectStore_put d (media_store w)"
  using assms by (simp add: async_defs db_defs)

text \<open>
  Claim C7: on a store whose entries have distinct ids, when \<^verbatim>\<open>storeMedia\<close> of a
  record resolves, a second \<^verbatim>\<open>storeMedia\<close> of the same record resolves with the same
  id, the store holds exactly one entry with that id, the record itself, and the second
  put changes nothing.
\<close>

theorem storeMedia_put_is_idempotent:
  assumes "distinct (map id' (media_store w))"
      and "fst (storeMedia d w) = Inr k"
  shows "fst (storeMedia d (snd (storeMedia d w))) = Inr k \<and>
         filter (\<lambda>x. id' x = id' d) (media_store (snd (storeMedia d (snd (storeMedia d w))))) = [d] \<and>
         media_store (snd (storeMedia d (snd (storeMedia d w)))) = media_store (snd (storeMedia d w))"
proof -
  let ?w1 = "snd (storeMedia d w)"
  from storeMedia_ok [OF assms(2)] have k: "k = id' d"
    and s1: "media_store ?w1 = objectStore_put d (media_store w)"
    and o: "db ?w1" and f: "\<not> failing FailPut ?w1"
    by (simp_all add: failing_def)
  from storeMedia_open [OF o f, of d] s1 k
  have r: "fst (storeMedia d ?w1) = Inr k"
    and s2: "media_store (snd (storeMedia d ?w1)) = objectStore_put d (media_store w)"
    by (simp_all add: objectStore_put_idem)
  from objectStore_put_entry [OF assms(1), of d] r s1 s2 show ?thesis by simp
qed

theorem storeMedia_put_is_idempotent_witness:
  "distinct (map id' (media_store storeAB)) \<and>
   fst (storeMedia (storedData mediaA) storeAB) = Inr ''photo_100_x'' \<and>
   fst (storeMedia (storedData mediaA) (snd (storeMedia (storedData mediaA) storeAB)))
     = Inr ''photo_100_x'' \<and>
   media_store (snd (storeMedia (storedData mediaA) (snd (storeMedia (storedData mediaA) storeAB))))
     = [storedData mediaA, storedData mediaB]"
  using storeMedia_put_is_idempotent [of storeAB "storedData mediaA" "''photo_100_x''"]
  by (simp add: storeAB_def world0_def mediaA_def mediaB_def storedData_def
      async_defs db_defs)

subsection \<open>createMediaFromBlob\<close>

lemma char_of_digits:
  "char_of (48::nat) = CHR ''0''" "char_of (49::nat) = CHR ''1''" "char_of (50::nat) = CHR ''2''"
  "char_of (51::nat) = CHR ''3''" "char_of (52::nat) = CHR ''4''" "char_of (53::nat) = CHR ''5''"
  "char_of (54::nat) = CHR ''6''" "char_of (55::nat) = CHR ''7''" "char_of (56::nat) = CHR ''8''"
  "char_of (57::nat) = CHR ''9''"
  by code_simp+

lemma pad_2: "pad 2 n = [digit (n div 10), digit n]"
  by (simp add: numeral_2_eq_2)

lemma pad_3: "pad 3 n = pad 2 (n div 10) @ [digit n]"
  using pad.simps(2) [of 2 n] by simp

lemma pad_4: "pad 4 n = pad 3 (n div 10) @ [digit n]"
  using pad.simps(2) [of 3 n] by simp

lemma pad_6: "pad 6 n = pad 4 (n div 10 div 10) @ [digit (n div 10), digit n]"
  using pad.simps(2) [of 5 n] pad.simps(2) [of 4 "n div 10"] by simp

lemmas pad_numeral = pad_2 pad_3 pad_4 pad_6

lemmas civil_defs = civil_from_days_def civil_of_doe_def civil_of_yoe_def civil_of_doy_def
  civil_of_mp_def civil_of_month_def

lemma toISOString_epoch: "toISOString 0 = Inr ''1970-01-01T00:00:00.000Z''"
  by (simp add: toISOString_def valid_time_def civil_defs year_string_def Let_def
      pad_numeral digit_def char_of_digits)

lemma toISOString_leap_day: "toISOString 951868799999 = Inr ''2000-02-29T23:59:59.999Z''"
  by (simp add: toISOString_def valid_time_def civil_defs year_string_def Let_def
      pad_numeral digit_def char_of_digits)

lemma toISOString_last: "toISOString 8640000000000000 = Inr ''+275760-09-13T00:00:00.000Z''"
  by (simp add: toISOString_def valid_time_def civil_defs year_string_def Let_def
      pad_numeral digit_def char_of_digits)

lemma toISOString_out_of_range:
  "toISOString 8640000000000001 = Inl (RangeError ''Invalid time value'')"
  by (simp add: toISOString_def valid_time_def)

lemma createMediaFromBlob_unfold:
  "createMediaFromBlob now0 rnd now1 b t w =
     (case try_catch (createObjectURL b) (\<lambda>error. resolve []) w of
        (Inl e, w1) \<Rightarrow> (Inl e, w1)
      | (Inr u, w1) \<Rightarrow>
          (case toISOString now1 of
             Inl e \<Rightarrow> (Inl e, w1)
           | Inr isoString \<Rightarrow>
               (Inr \<lparr>id' = mode_string t @ ''_'' @ number_toString now0 @ ''_'' @ substr 2 9 rnd,
                     type' = t, blob = b, timestamp = now1,
                     filename = mode_string t @ ''_'' @ replace_colon_dot (slice 0 19 isoString)
                                @ ''.'' @ (if t = photo then ''jpg'' else ''webm''),
                     url = u, indexedDbId = None\<rparr>, w1)))"
  by (simp add: createMediaFromBlob_def Let_def await_def split: prod.splits sum.splits)

lemma createObjectURL_caught:
  "\<exists>u w1. try_catch (createObjectURL b) (\<lambda>error. resolve []) w = (Inr u, w1) \<and>
     (failing FailCreateURL w \<longrightarrow> u = [])"
  by (simp add: createObjectURL_def try_catch_def resolve_def Let_def)

lemma toISOString_valid: "valid_time t \<Longrightarrow> \<exists>s. toISOString t = Inr s"
  by (simp add: toISOString_def Let_def split: prod.splits)

text \<open>
  Claim C8: with the clock at a valid time value (\<^verbatim>\<open>Date.now()\<close> returns no other),
  \<^verbatim>\<open>createMediaFromBlob\<close> returns a record for every payload and kind, in every state
  of the page. When \<^verbatim>\<open>URL.createObjectURL\<close> throws, the URL of the record is empty.
  The filename is the same for every call with the same kind and timestamp, whatever the
  payload, the id and the state, and it ends in \<^verbatim>\<open>.jpg\<close> for a photo and in
  \<^verbatim>\<open>.webm\<close> for a video.
\<close>

theorem createMediaFromBlob_fails_soft:
  assumes "valid_time now1"
  shows "\<exists>m m'. fst (createMediaFromBlob now0 rnd now1 b t w) = Inr m \<and>
           fst (createMediaFromBlob now0' rnd' now1 b' t w') = Inr m' \<and>
           type' m = t \<and> timestamp m = now1 \<and>
           filename m = filename m' \<and>
           (\<exists>stem. filename m = mode_string t @ ''_'' @ stem @
                      (case t of photo \<Rightarrow> ''.jpg'' | video \<Rightarrow> ''.webm'')) \<and>
           (failing FailCreateURL w \<longrightarrow> url m = [])"
proof -
  from toISOString_valid [OF assms] obtain s where s: "toISOString now1 = Inr s" by blast
  from createObjectURL_caught [of b w] obtain u w1 where
    u: "try_catch (createObjectURL b) (\<lambda>error. resolve []) w = (Inr u, w1)"
    and e: "failing FailCreateURL w \<longrightarrow> u = []" by blast
  from createObjectURL_caught [of b' w'] obtain u' w1' where
    u': "try_catch (createObjectURL b') (\<lambda>error. resolve []) w' = (Inr u', w1')" by blast
  let ?f = "mode_string t @ ''_'' @ replace_colon_dot (slice 0 19 s)
                                @ ''.'' @ (if t = photo then ''jpg'' else ''webm'')"
  have x: "?f = mode_string t @ ''_'' @ replace_colon_dot (slice 0 19 s) @
                      (case t of photo \<Rightarrow> ''.jpg'' | video \<Rightarrow> ''.webm'')"
    by (cases t) simp_all
  show ?thesis
    using s u u' e x by (auto simp: createMediaFromBlob_unfold)
qed

theorem createMediaFromBlob_fails_soft_witness:
  "valid_time 1700000000000 \<and> failing FailCreateURL no_urls \<and>
   fst (createMediaFromBlob 1699999999999 ''0.4fzyo82mvyr'' 1700000000000 [1, 2] photo no_urls)
     = Inr \<lparr>id' = ''photo_1699999999999_4fzyo82mv'', type' = photo, blob = [1, 2],
            timestamp = 1700000000000, filename = ''photo_2023-11-14T22-13-20.jpg'',
            url = [], indexedDbId = None\<rparr>"
  using createMediaFromBlob_fails_soft [of 1700000000000 1699999999999 "''0.4fzyo82mvyr''" "[1, 2]" photo no_urls
      1699999999999 "''0.4fzyo82mvyr''" "[1, 2]" no_urls]
  by (simp add: createMediaFromBlob_def number_toString_def dec.simps substr_def slice_def
      replace_colon_dot_def mode_string_def toISOString_def valid_time_def civil_defs
      year_string_def pad_numeral digit_def char_of_digits createObjectURL_def no_urls_def
      world0_def async_defs failing_def emit_def Let_def)

end
